theory Spec2Isabelle
  imports Main
begin

section \<open>The tic-tac-toe engine of oxo\_logic.py\<close>

text \<open>
  The class \<open>Game\<close> of \<open>PostLab4Solution/oxo_logic.py\<close> owns one attribute, the board
  \<open>self.game\<close>: a Python list whose cells are strings (\<open>" "\<close>, \<open>"X"\<close>, \<open>"O"\<close> in play,
  but nothing in the class restricts them). A cell is therefore a \<open>string\<close>, the board a
  \<open>string list\<close>, and the object a record with the one field. Every method takes the
  object and returns its result together with the object as the method leaves it; a raised
  exception is the \<open>Inl\<close> of the result, and the object next to it is the one the caller
  still holds after catching the exception.
\<close>

subsection \<open>Data\<close>

record Game =
  game :: "string list"

text \<open>
  The exceptions of the program. \<open>InvalidMove\<close> is the \<open>ValueError("Invalid cell")\<close> of
  \<open>userMove\<close>, \<open>IndexError\<close> is Python's error of a list index out of range, and
  \<open>NotFound\<close> and \<open>IOFailure\<close> are the two failures of the persistence module; in Python
  both are instances of \<open>IOError\<close>, the other two are not.
\<close>

datatype error = InvalidMove | IndexError | NotFound | IOFailure

fun is_IOError :: "error \<Rightarrow> bool" where
  "is_IOError NotFound = True"
| "is_IOError IOFailure = True"
| "is_IOError InvalidMove = False"
| "is_IOError IndexError = False"

text \<open>
  \<open>xs[i]\<close> for a Python integer \<open>i\<close>: an index from \<open>-len(xs)\<close> up to \<open>-1\<close> counts from
  the end, and everything outside \<open>-len(xs) .. len(xs) - 1\<close> raises \<open>IndexError\<close>. The
  function gives the position that is read or written.
\<close>

definition list_index :: "'a list \<Rightarrow> int \<Rightarrow> error + nat" where
  "list_index xs i =
     (if 0 \<le> i \<and> i < int (length xs) then Inr (nat i)
      else if i < 0 \<and> - int (length xs) \<le> i then Inr (nat (int (length xs) + i))
      else Inl IndexError)"

definition blank_board :: "string list" where
  "blank_board = replicate 9 '' ''"

subsection \<open>Construction and reset\<close>

text \<open>
  \<open>__init__(self, game=None)\<close>: the argument is adopted when it is truthy (a non-empty
  sequence) and has nine cells; \<open>None\<close> and everything else give nine blanks.
\<close>

definition init :: "string list option \<Rightarrow> Game" where
  "init arg =
     (case arg of
        None \<Rightarrow> \<lparr>game = blank_board\<rparr>
      | Some g \<Rightarrow> if g \<noteq> [] \<and> length g = 9 then \<lparr>game = g\<rparr> else \<lparr>game = blank_board\<rparr>)"

definition newGame :: "Game \<Rightarrow> string list \<times> Game" where
  "newGame s = (blank_board, s\<lparr>game := blank_board\<rparr>)"

subsection \<open>Win detection\<close>

definition wins :: "(nat \<times> nat \<times> nat) list" where
  "wins = [(0, 1, 2), (3, 4, 5), (6, 7, 8),
           (0, 3, 6), (1, 4, 7), (2, 5, 8),
           (0, 4, 8), (2, 4, 6)]"

text \<open>
  The \<open>for a, b, c in wins\<close> loop of \<open>_isWinningMove\<close>: the three cells are read (a read
  past the end of the board raises), their strings are concatenated, and the loop returns
  at the first triple that spells \<open>"XXX"\<close> or \<open>"OOO"\<close>.
\<close>

fun winning_loop :: "string list \<Rightarrow> (nat \<times> nat \<times> nat) list \<Rightarrow> error + bool" where
  "winning_loop g [] = Inr False"
| "winning_loop g ((a, b, c) # ws) =
     (if a < length g \<and> b < length g \<and> c < length g
      then (let chars = g ! a @ g ! b @ g ! c
            in if chars = ''XXX'' \<or> chars = ''OOO'' then Inr True else winning_loop g ws)
      else Inl IndexError)"

definition isWinningMove :: "Game \<Rightarrow> (error + bool) \<times> Game" where
  "isWinningMove s = (winning_loop (game s) wins, s)"

subsection \<open>Moves\<close>

text \<open>
  \<open>userMove(cell)\<close>: an occupied cell raises before anything is written; otherwise the
  cell becomes \<open>"X"\<close> and the result is \<open>"X"\<close> when \<open>_isWinningMove()\<close> holds of the new
  board, and the empty string when it does not.
\<close>

definition userMove :: "int \<Rightarrow> Game \<Rightarrow> (error + string) \<times> Game" where
  "userMove cell s =
     (case list_index (game s) cell of
        Inl e \<Rightarrow> (Inl e, s)
      | Inr k \<Rightarrow>
          if game s ! k \<noteq> '' '' then (Inl InvalidMove, s)
          else (let s' = s\<lparr>game := (game s)[k := ''X'']\<rparr>
                in case fst (isWinningMove s') of
                     Inl e \<Rightarrow> (Inl e, s')
                   | Inr w \<Rightarrow> (Inr (if w then ''X'' else ''''), s')))"

text \<open>
  \<open>_generateMove()\<close> lists the blank positions in increasing order and returns
  \<open>random.choice(options)\<close>, or \<open>-1\<close> when there is none. \<open>random.choice\<close> returns
  \<open>options[k]\<close> for a drawn \<open>k\<close> below \<open>len(options)\<close>; the draw is the parameter \<open>rnd\<close>,
  reduced modulo the number of options, so every blank position is the result for some
  \<open>rnd\<close> and nothing else is.
\<close>

definition options :: "string list \<Rightarrow> nat list" where
  "options g = filter (\<lambda>i. g ! i = '' '') [0 ..< length g]"

definition generateMove :: "nat \<Rightarrow> Game \<Rightarrow> int \<times> Game" where
  "generateMove rnd s =
     (let opts = options (game s)
      in (if opts \<noteq> [] then int (opts ! (rnd mod length opts)) else - 1, s))"

text \<open>
  \<open>computerMove()\<close>: \<open>"D"\<close> when \<open>_generateMove()\<close> finds no blank cell, with no write and
  no win detection; otherwise the chosen cell becomes \<open>"O"\<close> and the result is \<open>"O"\<close> or
  the empty string, by \<open>_isWinningMove()\<close> on the new board.
\<close>

definition computerMove :: "nat \<Rightarrow> Game \<Rightarrow> (error + string) \<times> Game" where
  "computerMove rnd s =
     (let cell = fst (generateMove rnd s)
      in if cell = - 1 then (Inr ''D'', s)
         else (case list_index (game s) cell of
                 Inl e \<Rightarrow> (Inl e, s)
               | Inr k \<Rightarrow>
                   (let s' = s\<lparr>game := (game s)[k := ''O'']\<rparr>
                    in case fst (isWinningMove s') of
                         Inl e \<Rightarrow> (Inl e, s')
                       | Inr w \<Rightarrow> (Inr (if w then ''O'' else ''''), s'))))"

subsection \<open>Persistence\<close>

text \<open>
  The module \<open>oxo_data\<close> that \<open>saveGame\<close> and \<open>restoreGame\<close> call is not among the sources.
  \<open>restoreGame\<close> takes the outcome of \<open>oxo_data.restoreGame()\<close> as its parameter \<open>loaded\<close>:
  the loaded list, or the exception raised. The \<open>except IOError\<close> clause catches the
  exceptions that are \<open>IOError\<close>s and lets any other pass, with the board untouched.
\<close>

definition restoreGame :: "error + string list \<Rightarrow> Game \<Rightarrow> (error + string list) \<times> Game" where
  "restoreGame loaded s =
     (case loaded of
        Inr g \<Rightarrow>
          if length g = 9 then (Inr g, s\<lparr>game := g\<rparr>)
          else (Inr (fst (newGame s)), snd (newGame s))
      | Inl e \<Rightarrow>
          if is_IOError e then (Inr (fst (newGame s)), snd (newGame s))
          else (Inl e, s))"

text \<open>
  Modelled from the spec: the persistence adapter \<open>oxo_data\<close> (its \<open>saveGame\<close>, the spec's
  \<open>store\<close>, and its \<open>restoreGame\<close>, the spec's \<open>load\<close>) is missing from the sources. The
  spec gives it one save slot whose format is the snapshot's characters as the entire
  contents of one file, with no header and no delimiter; \<open>store\<close> overwrites the slot and
  fails with \<open>IOFailure\<close> when the target is not writable; \<open>load\<close> returns the stored
  snapshot, fails with \<open>NotFound\<close> when there is none and with \<open>IOFailure\<close> on a read
  error.
\<close>

record disk =
  contents :: "string option"
  writable :: bool
  readable :: bool

definition store :: "string list \<Rightarrow> disk \<Rightarrow> error + disk" where
  "store snapshot d =
     (if writable d then Inr (d\<lparr>contents := Some (concat snapshot)\<rparr>) else Inl IOFailure)"

definition load :: "disk \<Rightarrow> error + string list" where
  "load d =
     (case contents d of
        None \<Rightarrow> Inl NotFound
      | Some txt \<Rightarrow> if readable d then Inr (map (\<lambda>c. [c]) txt) else Inl IOFailure)"

text \<open>
  \<open>saveGame()\<close> hands the board to the adapter and lets its failure pass; the board is not
  written.
\<close>

definition saveGame :: "Game \<Rightarrow> disk \<Rightarrow> error + disk" where
  "saveGame s d = store (game s) d"

subsection \<open>Predicates of the statements\<close>

text \<open>
  What the loop of \<open>_isWinningMove\<close> looks for, as a predicate of the board: some triple
  of \<open>wins\<close> whose three cells, concatenated, spell \<open>"XXX"\<close> or \<open>"OOO"\<close>.
\<close>

definition line_spelled :: "string list \<Rightarrow> bool" where
  "line_spelled g \<longleftrightarrow>
     (\<exists>(a, b, c) \<in> set wins. g ! a @ g ! b @ g ! c = ''XXX'' \<or> g ! a @ g ! b @ g ! c = ''OOO'')"

text \<open>
  The board of the specification: nine cells, each one of the three symbols blank,
  \<open>"X"\<close> and \<open>"O"\<close>. A triple is complete when its three cells hold the same symbol and
  that symbol is not the blank.
\<close>

definition valid_board :: "string list \<Rightarrow> bool" where
  "valid_board g \<longleftrightarrow> length g = 9 \<and> (\<forall>c \<in> set g. c = '' '' \<or> c = ''X'' \<or> c = ''O'')"

definition triple_complete :: "string list \<Rightarrow> nat \<times> nat \<times> nat \<Rightarrow> bool" where
  "triple_complete g t =
     (case t of (a, b, c) \<Rightarrow> g ! a = g ! b \<and> g ! b = g ! c \<and> g ! a \<noteq> '' '')"

text \<open>The full board without a complete triple that the test suite uses as its draw.\<close>

definition draw_board :: "string list" where
  "draw_board = [''X'', ''X'', ''O'', ''O'', ''O'', ''X'', ''X'', ''X'', ''O'']"

text \<open>
  A triple of \<open>wins\<close> whose three cells all hold the given mark.
\<close>

definition line_of :: "string \<Rightarrow> string list \<Rightarrow> bool" where
  "line_of mark g \<longleftrightarrow> (\<exists>(a, b, c) \<in> set wins. g ! a = mark \<and> g ! b = mark \<and> g ! c = mark)"

subsection \<open>Boards and stores of the examples\<close>

text \<open>
  A board in play whose top row is already \<open>"OOO"\<close>, one whose top row is already
  \<open>"XXX"\<close>, the full board \<open>"XXXOOOXOX"\<close> of the
  test suite (two complete rows and no blank), nine cells that are not symbols at all, and
  a store that holds nothing yet and can be written and read.
\<close>

definition o_row_board :: "string list" where
  "o_row_board = [''O'', ''O'', ''O'', ''X'', ''X'', '' '', '' '', '' '', '' '']"

definition x_row_board :: "string list" where
  "x_row_board = [''X'', ''X'', ''X'', ''O'', ''O'', '' '', '' '', '' '', '' '']"

definition x_row_full_board :: "string list" where
  "x_row_full_board = [''X'', ''X'', ''X'', ''O'', ''O'', ''O'', ''X'', ''O'', ''X'']"

definition odd_cells :: "string list" where
  "odd_cells = [''?'', ''XX'', '''', ''o'', ''x'', ''7'', ''O'', ''X'', '' '']"

definition empty_disk :: disk where
  "empty_disk = \<lparr>contents = None, writable = True, readable = True\<rparr>"

section \<open>Properties\<close>

subsection \<open>Win detection on a nine-cell board\<close>

lemma winning_loop_in_range:
  "(\<forall>(a, b, c) \<in> set ws. a < length g \<and> b < length g \<and> c < length g) \<Longrightarrow>
   winning_loop g ws =
     Inr (\<exists>(a, b, c) \<in> set ws. g ! a @ g ! b @ g ! c = ''XXX'' \<or> g ! a @ g ! b @ g ! c = ''OOO'')"
  by (induction g ws rule: winning_loop.induct) (auto simp: Let_def)

lemma wins_in_range:
  "length g = 9 \<Longrightarrow> \<forall>(a, b, c) \<in> set wins. a < length g \<and> b < length g \<and> c < length g"
  by (simp add: wins_def)

lemma single_chars_spell:
  "length x = 1 \<Longrightarrow> length y = 1 \<Longrightarrow> length z = 1 \<Longrightarrow>
   x @ y @ z = [p, q, r] \<longleftrightarrow> x = [p] \<and> y = [q] \<and> z = [r]"
  by (cases x; cases y; cases z) auto

lemma isWinningMove_nine:
  "length (game s) = 9 \<Longrightarrow> isWinningMove s = (Inr (line_spelled (game s)), s)"
  by (simp add: isWinningMove_def line_spelled_def winning_loop_in_range [OF wins_in_range])

lemma list_index_in_range:
  "0 \<le> i \<Longrightarrow> i < int (length xs) \<Longrightarrow> list_index xs i = Inr (nat i)"
  by (simp add: list_index_def)

lemma list_index_nat:
  "k < length xs \<Longrightarrow> list_index xs (int k) = Inr k"
  by (simp add: list_index_def)

lemma winning_loop_error:
  "winning_loop g ws = Inl e \<Longrightarrow> e = IndexError"
  by (induction g ws rule: winning_loop.induct) (auto simp: Let_def split: if_splits)

lemma isWinningMove_error:
  "fst (isWinningMove s) = Inl e \<Longrightarrow> e = IndexError"
  by (auto simp: isWinningMove_def dest: winning_loop_error)

lemma wins_bound: "(a, b, c) \<in> set wins \<Longrightarrow> a < 9 \<and> b < 9 \<and> c < 9"
  by (auto simp: wins_def)

lemma spelled_single_chars:
  assumes "length g = 9" "\<forall>c \<in> set g. length c = 1" "a < 9" "b < 9" "c < 9"
  shows "g ! a @ g ! b @ g ! c = [p, p, p] \<longleftrightarrow> g ! a = g ! b \<and> g ! b = g ! c \<and> g ! a = [p]"
proof -
  have "length (g ! a) = 1" "length (g ! b) = 1" "length (g ! c) = 1"
    using assms by (simp_all add: nth_mem)
  then have "g ! a @ g ! b @ g ! c = [p, p, p] \<longleftrightarrow> g ! a = [p] \<and> g ! b = [p] \<and> g ! c = [p]"
    by (rule single_chars_spell)
  then show ?thesis by auto
qed

lemma line_spelled_single_chars:
  assumes "length g = 9" "\<forall>c \<in> set g. length c = 1"
  shows "line_spelled g \<longleftrightarrow>
     (\<exists>(a, b, c) \<in> set wins. g ! a = g ! b \<and> g ! b = g ! c \<and> (g ! a = ''X'' \<or> g ! a = ''O''))"
  unfolding line_spelled_def
proof (intro bex_cong refl)
  fix t assume tw: "t \<in> set wins"
  obtain a b c where t: "t = (a, b, c)" by (cases t)
  with tw have "a < 9" "b < 9" "c < 9" by (auto dest: wins_bound)
  with t show "(case t of (a, b, c) \<Rightarrow> g ! a @ g ! b @ g ! c = ''XXX'' \<or> g ! a @ g ! b @ g ! c = ''OOO'')
      = (case t of (a, b, c) \<Rightarrow> g ! a = g ! b \<and> g ! b = g ! c \<and> (g ! a = ''X'' \<or> g ! a = ''O''))"
    using spelled_single_chars [OF assms, of a b c] by auto
qed

lemma valid_board_cells:
  assumes "valid_board g" "k < 9"
  shows "g ! k = '' '' \<or> g ! k = ''X'' \<or> g ! k = ''O''"
proof -
  have "g ! k \<in> set g" using assms by (simp add: valid_board_def)
  then show ?thesis using assms(1) unfolding valid_board_def by blast
qed

lemma valid_board_single_chars:
  assumes "valid_board g"
  shows "\<forall>c \<in> set g. length c = 1"
proof
  fix c assume "c \<in> set g"
  with assms have "c = '' '' \<or> c = ''X'' \<or> c = ''O''" unfolding valid_board_def by blast
  then show "length c = 1" by (elim disjE) simp_all
qed

lemma line_spelled_valid:
  assumes "valid_board g"
  shows "line_spelled g \<longleftrightarrow> (\<exists>t \<in> set wins. triple_complete g t)"
proof -
  have len: "length g = 9" using assms by (simp add: valid_board_def)
  have "(\<exists>(a, b, c) \<in> set wins. g ! a = g ! b \<and> g ! b = g ! c \<and> (g ! a = ''X'' \<or> g ! a = ''O''))
        \<longleftrightarrow> (\<exists>t \<in> set wins. triple_complete g t)"
  proof (intro bex_cong refl)
    fix t assume tw: "t \<in> set wins"
    obtain a b c where t: "t = (a, b, c)" by (cases t)
    with tw have "a < 9" by (auto dest: wins_bound)
    then have "g ! a = '' '' \<or> g ! a = ''X'' \<or> g ! a = ''O''"
      by (rule valid_board_cells [OF assms])
    then have "(g ! a = ''X'' \<or> g ! a = ''O'') \<longleftrightarrow> g ! a \<noteq> '' ''"
      by (elim disjE) simp_all
    with t show "(case t of (a, b, c) \<Rightarrow> g ! a = g ! b \<and> g ! b = g ! c \<and> (g ! a = ''X'' \<or> g ! a = ''O''))
        = triple_complete g t"
      by (simp add: triple_complete_def)
  qed
  then show ?thesis
    using line_spelled_single_chars [OF len valid_board_single_chars [OF assms]] by simp
qed

text \<open>
  C3. On every board of nine cells that each hold blank, \<open>"X"\<close> or \<open>"O"\<close>,
  \<open>_isWinningMove()\<close> returns true exactly when one of the eight triples (0,1,2),
  (3,4,5), (6,7,8), (0,3,6), (1,4,7), (2,5,8), (0,4,8), (2,4,6) holds three identical
  non-blank symbols. On every board whatever it leaves the object as it was. It returns
  false on the empty board and on the full draw board \<open>"XXOOOXXXO"\<close>.
\<close>

theorem isWinningMove_iff_triple:
  "(valid_board (game s) \<longrightarrow>
      isWinningMove s =
        (Inr (\<exists>t \<in> {(0, 1, 2), (3, 4, 5), (6, 7, 8), (0, 3, 6), (1, 4, 7), (2, 5, 8), (0, 4, 8), (2, 4, 6)}.
                triple_complete (game s) t), s)) \<and>
   snd (isWinningMove s) = s \<and>
   fst (isWinningMove \<lparr>game = blank_board\<rparr>) = Inr False \<and>
   fst (isWinningMove \<lparr>game = draw_board\<rparr>) = Inr False"
proof (intro conjI impI)
  assume v: "valid_board (game s)"
  then have "length (game s) = 9" by (simp add: valid_board_def)
  then have "isWinningMove s = (Inr (line_spelled (game s)), s)" by (rule isWinningMove_nine)
  moreover have "set wins = {(0, 1, 2), (3, 4, 5), (6, 7, 8), (0, 3, 6), (1, 4, 7), (2, 5, 8), (0, 4, 8), (2, 4, 6)}"
    by (simp add: wins_def)
  ultimately show "isWinningMove s =
        (Inr (\<exists>t \<in> {(0, 1, 2), (3, 4, 5), (6, 7, 8), (0, 3, 6), (1, 4, 7), (2, 5, 8), (0, 4, 8), (2, 4, 6)}.
                triple_complete (game s) t), s)"
    using line_spelled_valid [OF v] by simp
next
  show "snd (isWinningMove s) = s" by (simp add: isWinningMove_def)
next
  show "fst (isWinningMove \<lparr>game = blank_board\<rparr>) = Inr False"
    by (simp add: isWinningMove_def blank_board_def wins_def eval_nat_numeral)
next
  show "fst (isWinningMove \<lparr>game = draw_board\<rparr>) = Inr False"
    by (simp add: isWinningMove_def draw_board_def wins_def)
qed

theorem isWinningMove_iff_triple_witness:
  "valid_board (game \<lparr>game = [''X'', ''O'', '' '', ''X'', ''O'', '' '', ''X'', '' '', '' '']\<rparr>) \<and>
   isWinningMove \<lparr>game = [''X'', ''O'', '' '', ''X'', ''O'', '' '', ''X'', '' '', '' '']\<rparr>
     = (Inr True, \<lparr>game = [''X'', ''O'', '' '', ''X'', ''O'', '' '', ''X'', '' '', '' '']\<rparr>)"
  using isWinningMove_iff_triple [of "\<lparr>game = [''X'', ''O'', '' '', ''X'', ''O'', '' '', ''X'', '' '', '' '']\<rparr>"]
  by (simp add: valid_board_def triple_complete_def)

subsection \<open>An occupied cell refuses the user's move\<close>

text \<open>
  C1. For every board and every cell index within it (the indices 0 to 8 of a nine-cell
  board) whose cell is not blank, \<open>userMove(cell)\<close> fails with \<open>InvalidMove\<close> and leaves
  the object as it was; and \<open>userMove\<close> fails with \<open>InvalidMove\<close> exactly when the
  targeted cell is not blank.
\<close>

theorem userMove_occupied_invalid:
  "0 \<le> cell \<Longrightarrow> cell < int (length (game s)) \<Longrightarrow>
   (game s ! nat cell \<noteq> '' '' \<longrightarrow> userMove cell s = (Inl InvalidMove, s)) \<and>
   (fst (userMove cell s) = Inl InvalidMove \<longleftrightarrow> game s ! nat cell \<noteq> '' '')"
  by (auto simp: userMove_def list_index_in_range Let_def split: sum.splits dest: isWinningMove_error)

theorem userMove_occupied_invalid_witness:
  "(0::int) \<le> 4 \<and> (4::int) < int (length (game \<lparr>game = [''X'', '' '', '' '', '' '', ''O'', '' '', '' '', '' '', '' '']\<rparr>)) \<and>
   userMove 4 \<lparr>game = [''X'', '' '', '' '', '' '', ''O'', '' '', '' '', '' '', '' '']\<rparr>
     = (Inl InvalidMove, \<lparr>game = [''X'', '' '', '' '', '' '', ''O'', '' '', '' '', '' '', '' '']\<rparr>) \<and>
   fst (userMove 5 \<lparr>game = [''X'', '' '', '' '', '' '', ''O'', '' '', '' '', '' '', '' '']\<rparr>) \<noteq> Inl InvalidMove"
  using userMove_occupied_invalid [of 4 "\<lparr>game = [''X'', '' '', '' '', '' '', ''O'', '' '', '' '', '' '', '' '']\<rparr>"]
        userMove_occupied_invalid [of 5 "\<lparr>game = [''X'', '' '', '' '', '' '', ''O'', '' '', '' '', '' '', '' '']\<rparr>"]
  by simp

subsection \<open>What a move does on a nine-cell board\<close>

lemma options_set: "set (options g) = {i. i < length g \<and> g ! i = '' ''}"
  by (auto simp: options_def)

lemma options_empty_iff: "options g = [] \<longleftrightarrow> '' '' \<notin> set g"
proof -
  have "options g = [] \<longleftrightarrow> set (options g) = {}" by simp
  also have "\<dots> \<longleftrightarrow> (\<forall>i < length g. g ! i \<noteq> '' '')" by (auto simp: options_set)
  also have "\<dots> \<longleftrightarrow> '' '' \<notin> set g" by (metis in_set_conv_nth)
  finally show ?thesis .
qed

lemma choice_in_options:
  assumes "options g \<noteq> []"
  shows "options g ! (rnd mod length (options g)) < length g \<and>
         g ! (options g ! (rnd mod length (options g))) = '' ''"
proof -
  have "rnd mod length (options g) < length (options g)" using assms by simp
  then have "options g ! (rnd mod length (options g)) \<in> set (options g)" by (rule nth_mem)
  then show ?thesis by (simp add: options_set)
qed

lemma computerMove_full:
  "'' '' \<notin> set (game s) \<Longrightarrow> computerMove rnd s = (Inr ''D'', s)"
  by (simp add: computerMove_def generateMove_def options_empty_iff Let_def)

lemma computerMove_blank:
  assumes "length (game s) = 9" "'' '' \<in> set (game s)"
  shows "\<exists>k < 9. game s ! k = '' '' \<and>
     computerMove rnd s =
       (Inr (if line_spelled ((game s)[k := ''O'']) then ''O'' else ''''),
        s\<lparr>game := (game s)[k := ''O'']\<rparr>)"
proof -
  define k where "k = options (game s) ! (rnd mod length (options (game s)))"
  have ne: "options (game s) \<noteq> []" using assms(2) by (simp add: options_empty_iff)
  have k: "k < length (game s)" "game s ! k = '' ''"
    using choice_in_options [OF ne, of rnd] by (simp_all add: k_def)
  have gen: "fst (generateMove rnd s) = int k"
    using ne by (simp add: generateMove_def k_def Let_def)
  have win: "fst (isWinningMove (s\<lparr>game := (game s)[k := ''O'']\<rparr>))
      = Inr (line_spelled ((game s)[k := ''O'']))"
    using assms(1) by (simp add: isWinningMove_nine)
  have "computerMove rnd s =
       (Inr (if line_spelled ((game s)[k := ''O'']) then ''O'' else ''''),
        s\<lparr>game := (game s)[k := ''O'']\<rparr>)"
    using k(1) by (simp add: computerMove_def gen list_index_nat win)
  with k assms(1) show ?thesis by auto
qed

lemma userMove_blank:
  assumes "length (game s) = 9" "0 \<le> cell" "cell \<le> 8" "game s ! nat cell = '' ''"
  shows "userMove cell s =
       (Inr (if line_spelled ((game s)[nat cell := ''X'']) then ''X'' else ''''),
        s\<lparr>game := (game s)[nat cell := ''X'']\<rparr>)"
proof -
  have "list_index (game s) cell = Inr (nat cell)"
    using assms by (simp add: list_index_in_range)
  moreover have "fst (isWinningMove (s\<lparr>game := (game s)[nat cell := ''X'']\<rparr>))
      = Inr (line_spelled ((game s)[nat cell := ''X'']))"
    using assms(1) by (simp add: isWinningMove_nine)
  ultimately show ?thesis using assms(4) by (simp add: userMove_def)
qed

lemma line_of_update:
  assumes "line_of mark g" "mark \<noteq> '' ''" "g ! k = '' ''"
  shows "line_of mark (g[k := v])"
proof -
  from assms(1) obtain a b c where t: "(a, b, c) \<in> set wins"
      and cells: "g ! a = mark" "g ! b = mark" "g ! c = mark"
    unfolding line_of_def by blast
  have "a \<noteq> k" "b \<noteq> k" "c \<noteq> k" using cells assms(2,3) by auto
  then have "g[k := v] ! a = mark" "g[k := v] ! b = mark" "g[k := v] ! c = mark"
    using cells by simp_all
  with t show ?thesis unfolding line_of_def by blast
qed

lemma line_of_spelled:
  assumes "line_of ''X'' g \<or> line_of ''O'' g"
  shows "line_spelled g"
proof -
  from assms obtain a b c where t: "(a, b, c) \<in> set wins"
      and "(g ! a = ''X'' \<and> g ! b = ''X'' \<and> g ! c = ''X'') \<or>
           (g ! a = ''O'' \<and> g ! b = ''O'' \<and> g ! c = ''O'')"
    unfolding line_of_def by blast
  then have "g ! a @ g ! b @ g ! c = ''XXX'' \<or> g ! a @ g ! b @ g ! c = ''OOO''"
    by (elim disjE conjE) simp_all
  with t show ?thesis unfolding line_spelled_def by blast
qed

lemma line_of_list_ex:
  "line_of mark g = list_ex (\<lambda>(a, b, c). g ! a = mark \<and> g ! b = mark \<and> g ! c = mark) wins"
  by (simp add: line_of_def list_ex_iff)

subsection \<open>The computer's move\<close>

text \<open>
  C4. On a nine-cell board with no blank cell \<open>computerMove()\<close> returns \<open>"D"\<close> and leaves
  every cell as it was. On a nine-cell board with a blank cell it writes \<open>"O"\<close> into exactly
  one cell that was blank, leaves all other cells as they were, and returns \<open>"O"\<close> when win
  detection holds of the new board and the empty string when it does not. This holds for
  every draw \<open>rnd\<close> of the random choice.
\<close>

theorem computerMove_draw_or_one_O:
  assumes "length (game s) = 9"
  shows "('' '' \<notin> set (game s) \<longrightarrow> computerMove rnd s = (Inr ''D'', s)) \<and>
     ('' '' \<in> set (game s) \<longrightarrow>
        (\<exists>k < 9. game s ! k = '' '' \<and>
           snd (computerMove rnd s) = s\<lparr>game := (game s)[k := ''O'']\<rparr> \<and>
           fst (computerMove rnd s) =
             Inr (if fst (isWinningMove (snd (computerMove rnd s))) = Inr True then ''O'' else '''') \<and>
           (fst (computerMove rnd s) = Inr ''O'' \<or> fst (computerMove rnd s) = Inr '''')))"
proof (intro conjI impI)
  assume "'' '' \<notin> set (game s)"
  then show "computerMove rnd s = (Inr ''D'', s)" by (rule computerMove_full)
next
  assume "'' '' \<in> set (game s)"
  with assms obtain k where k: "k < 9" "game s ! k = '' ''"
      and cm: "computerMove rnd s =
        (Inr (if line_spelled ((game s)[k := ''O'']) then ''O'' else ''''),
         s\<lparr>game := (game s)[k := ''O'']\<rparr>)"
    using computerMove_blank [of s rnd] by blast
  have "fst (isWinningMove (s\<lparr>game := (game s)[k := ''O'']\<rparr>))
      = Inr (line_spelled ((game s)[k := ''O'']))"
    using assms by (simp add: isWinningMove_nine)
  with k cm show "\<exists>k < 9. game s ! k = '' '' \<and>
           snd (computerMove rnd s) = s\<lparr>game := (game s)[k := ''O'']\<rparr> \<and>
           fst (computerMove rnd s) =
             Inr (if fst (isWinningMove (snd (computerMove rnd s))) = Inr True then ''O'' else '''') \<and>
           (fst (computerMove rnd s) = Inr ''O'' \<or> fst (computerMove rnd s) = Inr '''')"
    by (intro exI [of _ k]) simp
qed

theorem computerMove_draw_or_one_O_witness:
  "length (game \<lparr>game = o_row_board\<rparr>) = 9 \<and> '' '' \<in> set (game \<lparr>game = o_row_board\<rparr>) \<and>
   '' '' \<notin> set (game \<lparr>game = x_row_full_board\<rparr>) \<and>
   computerMove 7 \<lparr>game = x_row_full_board\<rparr> = (Inr ''D'', \<lparr>game = x_row_full_board\<rparr>) \<and>
   (fst (computerMove 7 \<lparr>game = o_row_board\<rparr>) = Inr ''O'' \<or>
    fst (computerMove 7 \<lparr>game = o_row_board\<rparr>) = Inr '''')"
proof -
  have len: "length (game \<lparr>game = o_row_board\<rparr>) = 9"
    and blank: "'' '' \<in> set (game \<lparr>game = o_row_board\<rparr>)"
    by (simp_all add: o_row_board_def)
  have len': "length (game \<lparr>game = x_row_full_board\<rparr>) = 9"
    and full: "'' '' \<notin> set (game \<lparr>game = x_row_full_board\<rparr>)"
    by (simp_all add: x_row_full_board_def)
  have "computerMove 7 \<lparr>game = x_row_full_board\<rparr> = (Inr ''D'', \<lparr>game = x_row_full_board\<rparr>)"
    using computerMove_draw_or_one_O [OF len', of 7] full by blast
  moreover have "fst (computerMove 7 \<lparr>game = o_row_board\<rparr>) = Inr ''O'' \<or>
    fst (computerMove 7 \<lparr>game = o_row_board\<rparr>) = Inr ''''"
    using computerMove_draw_or_one_O [OF len, of 7] blank by blast
  ultimately show ?thesis using len blank full by blast
qed

text \<open>
  C10. On a board with no blank cell \<open>computerMove()\<close> returns \<open>"D"\<close> and changes
  nothing, whatever win detection would say of that board: the full board
  \<open>"XXXOOOXOX"\<close> holds two complete rows and is reported as a draw.
\<close>

theorem computerMove_full_board_draw:
  "'' '' \<notin> set (game s) \<Longrightarrow> computerMove rnd s = (Inr ''D'', s)"
  by (rule computerMove_full)

theorem computerMove_full_board_draw_witness:
  "'' '' \<notin> set (game \<lparr>game = x_row_full_board\<rparr>) \<and>
   fst (isWinningMove \<lparr>game = x_row_full_board\<rparr>) = Inr True \<and>
   computerMove 0 \<lparr>game = x_row_full_board\<rparr> = (Inr ''D'', \<lparr>game = x_row_full_board\<rparr>)"
  using computerMove_full_board_draw [of "\<lparr>game = x_row_full_board\<rparr>" 0]
  by (simp add: x_row_full_board_def isWinningMove_def wins_def)

subsection \<open>A move on a board that already holds a complete line\<close>

text \<open>
  C2, as the specification states it, fails. The claim is that a move placing the other
  symbol on a blank cell of a board that already holds a complete line, without completing
  a line of its own symbol, returns the empty string. On the board \<open>"OOOXX    "\<close>, which
  holds the row \<open>"OOO"\<close> and no line of \<open>"X"\<close>, \<open>userMove(8)\<close> completes no line of
  \<open>"X"\<close> and returns \<open>"X"\<close>: \<open>_isWinningMove()\<close> looks for a line of either symbol and
  finds the old row.
\<close>

theorem userMove_old_line_counterexample:
  "valid_board o_row_board \<and> line_of ''O'' o_row_board \<and> \<not> line_of ''X'' o_row_board \<and>
   o_row_board ! 8 = '' '' \<and> \<not> line_of ''X'' (o_row_board[8 := ''X'']) \<and>
   userMove 8 \<lparr>game = o_row_board\<rparr> = (Inr ''X'', \<lparr>game = o_row_board[8 := ''X'']\<rparr>) \<and>
   fst (userMove 8 \<lparr>game = o_row_board\<rparr>) \<noteq> Inr ''''"
  by (simp add: valid_board_def o_row_board_def line_of_list_ex wins_def userMove_def list_index_def
      isWinningMove_def)

text \<open>
  C2, amended. On a nine-cell board that already holds a complete line of \<open>"O"\<close>,
  \<open>userMove\<close> on any blank cell places its \<open>"X"\<close> and returns \<open>"X"\<close>; on one that holds a
  complete line of \<open>"X"\<close> and has a blank cell, \<open>computerMove()\<close> returns \<open>"O"\<close>. The
  label is always that of the symbol just placed (\<open>userMove\<close> never returns \<open>"O"\<close>,
  \<open>computerMove\<close> never returns \<open>"X"\<close>), but whether a win is reported depends on any
  complete line on the board, a line of the opposite symbol included.
\<close>

theorem move_on_won_board_labels_mover:
  assumes "length (game s) = 9"
  shows "(line_of ''O'' (game s) \<and> 0 \<le> cell \<and> cell \<le> 8 \<and> game s ! nat cell = '' '' \<longrightarrow>
        userMove cell s = (Inr ''X'', s\<lparr>game := (game s)[nat cell := ''X'']\<rparr>)) \<and>
     (line_of ''X'' (game s) \<and> '' '' \<in> set (game s) \<longrightarrow> fst (computerMove rnd s) = Inr ''O'') \<and>
     fst (userMove cell s) \<noteq> Inr ''O'' \<and>
     fst (computerMove rnd s) \<noteq> Inr ''X''"
proof (intro conjI impI)
  assume h: "line_of ''O'' (game s) \<and> 0 \<le> cell \<and> cell \<le> 8 \<and> game s ! nat cell = '' ''"
  then have "line_of ''O'' ((game s)[nat cell := ''X''])" by (simp add: line_of_update)
  then have "line_spelled ((game s)[nat cell := ''X''])" by (simp add: line_of_spelled)
  then show "userMove cell s = (Inr ''X'', s\<lparr>game := (game s)[nat cell := ''X'']\<rparr>)"
    using userMove_blank [OF assms, of cell] h by simp
next
  assume h: "line_of ''X'' (game s) \<and> '' '' \<in> set (game s)"
  with assms obtain k where k: "game s ! k = '' ''"
      and cm: "computerMove rnd s =
        (Inr (if line_spelled ((game s)[k := ''O'']) then ''O'' else ''''),
         s\<lparr>game := (game s)[k := ''O'']\<rparr>)"
    using computerMove_blank [of s rnd] by blast
  have "line_of ''X'' ((game s)[k := ''O''])" using h k by (simp add: line_of_update)
  then have "line_spelled ((game s)[k := ''O''])" by (simp add: line_of_spelled)
  with cm show "fst (computerMove rnd s) = Inr ''O''" by simp
next
  show "fst (userMove cell s) \<noteq> Inr ''O''"
    by (simp add: userMove_def Let_def split: sum.split)
next
  show "fst (computerMove rnd s) \<noteq> Inr ''X''"
    by (simp add: computerMove_def Let_def split: sum.split)
qed

theorem move_on_won_board_labels_mover_witness:
  "length (game \<lparr>game = o_row_board\<rparr>) = 9 \<and> line_of ''O'' (game \<lparr>game = o_row_board\<rparr>) \<and>
   game \<lparr>game = o_row_board\<rparr> ! nat 8 = '' '' \<and>
   userMove 8 \<lparr>game = o_row_board\<rparr> = (Inr ''X'', \<lparr>game = o_row_board[8 := ''X'']\<rparr>) \<and>
   length (game \<lparr>game = x_row_board\<rparr>) = 9 \<and> line_of ''X'' (game \<lparr>game = x_row_board\<rparr>) \<and>
   '' '' \<in> set (game \<lparr>game = x_row_board\<rparr>) \<and>
   fst (computerMove 3 \<lparr>game = x_row_board\<rparr>) = Inr ''O''"
  using move_on_won_board_labels_mover [of "\<lparr>game = o_row_board\<rparr>" 8 0]
    move_on_won_board_labels_mover [of "\<lparr>game = x_row_board\<rparr>" 0 3]
  by (simp add: o_row_board_def x_row_board_def line_of_list_ex wins_def)

subsection \<open>Lengths\<close>

lemma blank_board_cells:
  "blank_board = ['' '', '' '', '' '', '' '', '' '', '' '', '' '', '' '', '' '']"
  by (simp add: blank_board_def eval_nat_numeral)

lemma length_blank_board: "length blank_board = 9"
  by (simp add: blank_board_def)

lemma length_userMove: "length (game (snd (userMove cell s))) = length (game s)"
  by (simp add: userMove_def Let_def split: sum.split)

lemma length_computerMove: "length (game (snd (computerMove rnd s))) = length (game s)"
  by (simp add: computerMove_def Let_def split: sum.split)

lemma length_restoreGame:
  "length (game s) = 9 \<Longrightarrow> length (game (snd (restoreGame loaded s))) = 9"
  by (simp add: restoreGame_def newGame_def length_blank_board split: sum.split)

subsection \<open>The board keeps its nine cells\<close>

text \<open>
  C5. Construction, with or without an argument, and \<open>newGame\<close> give a board of nine
  cells; \<open>userMove\<close>, \<open>computerMove\<close> and \<open>restoreGame\<close> leave a nine-cell board with nine
  cells; and a snapshot whose length is not nine, handed to the constructor or loaded by
  \<open>restoreGame\<close>, does not become the board: the board is then one of nine cells, which
  the snapshot is not.
\<close>

theorem board_length_nine:
  "length (game (init arg)) = 9 \<and>
   length (fst (newGame s)) = 9 \<and> length (game (snd (newGame s))) = 9 \<and>
   (length (game s) = 9 \<longrightarrow>
      length (game (snd (userMove cell s))) = 9 \<and>
      length (game (snd (computerMove rnd s))) = 9 \<and>
      length (game (snd (restoreGame loaded s))) = 9) \<and>
   (length g \<noteq> 9 \<longrightarrow>
      game (init (Some g)) \<noteq> g \<and> length (game (init (Some g))) = 9 \<and>
      game (snd (restoreGame (Inr g) s)) \<noteq> g \<and>
      length (game (snd (restoreGame (Inr g) s))) = 9)"
proof (intro conjI impI)
  show "length (game (init arg)) = 9"
    by (simp add: init_def length_blank_board split: option.split)
  show "length (fst (newGame s)) = 9" "length (game (snd (newGame s))) = 9"
    by (simp_all add: newGame_def length_blank_board)
next
  assume "length (game s) = 9"
  then show "length (game (snd (userMove cell s))) = 9"
    "length (game (snd (computerMove rnd s))) = 9"
    "length (game (snd (restoreGame loaded s))) = 9"
    by (simp_all add: length_userMove length_computerMove length_restoreGame)
next
  assume ne: "length g \<noteq> 9"
  have i: "game (init (Some g)) = blank_board" using ne by (simp add: init_def)
  have r: "game (snd (restoreGame (Inr g) s)) = blank_board"
    using ne by (simp add: restoreGame_def newGame_def)
  have "blank_board \<noteq> g" using ne length_blank_board by auto
  with i r show "game (init (Some g)) \<noteq> g" "game (snd (restoreGame (Inr g) s)) \<noteq> g"
    by simp_all
  from i r show "length (game (init (Some g))) = 9"
    "length (game (snd (restoreGame (Inr g) s))) = 9"
    by (simp_all add: length_blank_board)
qed

theorem board_length_nine_witness:
  "length (game \<lparr>game = o_row_board\<rparr>) = 9 \<and> length [''X'', ''O'', ''X''] \<noteq> (9::nat) \<and>
   length (game (snd (userMove 5 \<lparr>game = o_row_board\<rparr>))) = 9 \<and>
   length (game (snd (computerMove 2 \<lparr>game = o_row_board\<rparr>))) = 9 \<and>
   game (snd (restoreGame (Inr [''X'', ''O'', ''X'']) \<lparr>game = o_row_board\<rparr>)) \<noteq> [''X'', ''O'', ''X''] \<and>
   length (game (snd (restoreGame (Inr [''X'', ''O'', ''X'']) \<lparr>game = o_row_board\<rparr>))) = 9"
  using board_length_nine [of None "\<lparr>game = o_row_board\<rparr>" 5 2 "Inr [''X'', ''O'', ''X'']" "[''X'', ''O'', ''X'']"]
  by (simp add: o_row_board_def)

subsection \<open>Restoring\<close>

text \<open>
  C6. When the load fails with \<open>NotFound\<close> or \<open>IOFailure\<close>, or returns a snapshot whose
  length is not nine, \<open>restoreGame()\<close> makes the board nine blanks, which is what
  \<open>newGame()\<close> does; when the load returns a snapshot of length nine, the board becomes
  that snapshot; and whenever the load either succeeds or fails with one of those two
  errors, \<open>restoreGame()\<close> raises nothing and returns the board it has installed.
\<close>

theorem restoreGame_falls_back:
  "((e = NotFound \<or> e = IOFailure) \<longrightarrow>
      restoreGame (Inl e) s = (Inr (replicate 9 '' ''), s\<lparr>game := replicate 9 '' ''\<rparr>)) \<and>
   (length g \<noteq> 9 \<longrightarrow>
      restoreGame (Inr g) s = (Inr (replicate 9 '' ''), s\<lparr>game := replicate 9 '' ''\<rparr>)) \<and>
   (length g = 9 \<longrightarrow> restoreGame (Inr g) s = (Inr g, s\<lparr>game := g\<rparr>)) \<and>
   newGame s = (replicate 9 '' '', s\<lparr>game := replicate 9 '' ''\<rparr>) \<and>
   ((\<forall>x. loaded = Inl x \<longrightarrow> x = NotFound \<or> x = IOFailure) \<longrightarrow>
      (\<exists>b. restoreGame loaded s = (Inr b, s\<lparr>game := b\<rparr>)))"
proof (intro conjI impI)
  assume "e = NotFound \<or> e = IOFailure"
  then show "restoreGame (Inl e) s = (Inr (replicate 9 '' ''), s\<lparr>game := replicate 9 '' ''\<rparr>)"
    by (auto simp: restoreGame_def newGame_def blank_board_def)
next
  assume "length g \<noteq> 9"
  then show "restoreGame (Inr g) s = (Inr (replicate 9 '' ''), s\<lparr>game := replicate 9 '' ''\<rparr>)"
    by (simp add: restoreGame_def newGame_def blank_board_def)
next
  assume "length g = 9"
  then show "restoreGame (Inr g) s = (Inr g, s\<lparr>game := g\<rparr>)"
    by (simp add: restoreGame_def)
next
  show "newGame s = (replicate 9 '' '', s\<lparr>game := replicate 9 '' ''\<rparr>)"
    by (simp add: newGame_def blank_board_def)
next
  assume io: "\<forall>x. loaded = Inl x \<longrightarrow> x = NotFound \<or> x = IOFailure"
  show "\<exists>b. restoreGame loaded s = (Inr b, s\<lparr>game := b\<rparr>)"
  proof (cases loaded)
    case (Inl x)
    with io have "is_IOError x" by auto
    with Inl show ?thesis by (simp add: restoreGame_def newGame_def)
  next
    case (Inr g')
    then show ?thesis by (simp add: restoreGame_def newGame_def)
  qed
qed

theorem restoreGame_falls_back_witness:
  "restoreGame (Inl NotFound) \<lparr>game = o_row_board\<rparr>
     = (Inr (replicate 9 '' ''), \<lparr>game = replicate 9 '' ''\<rparr>) \<and>
   length [''X'', ''O'', ''X''] \<noteq> (9::nat) \<and>
   restoreGame (Inr [''X'', ''O'', ''X'']) \<lparr>game = o_row_board\<rparr>
     = (Inr (replicate 9 '' ''), \<lparr>game = replicate 9 '' ''\<rparr>) \<and>
   length x_row_full_board = 9 \<and>
   restoreGame (Inr x_row_full_board) \<lparr>game = o_row_board\<rparr>
     = (Inr x_row_full_board, \<lparr>game = x_row_full_board\<rparr>) \<and>
   (\<exists>b. restoreGame (Inl IOFailure) \<lparr>game = o_row_board\<rparr> = (Inr b, \<lparr>game = b\<rparr>))"
  using restoreGame_falls_back [of NotFound "\<lparr>game = o_row_board\<rparr>" "[''X'', ''O'', ''X'']" "Inl IOFailure"]
    restoreGame_falls_back [of NotFound "\<lparr>game = o_row_board\<rparr>" x_row_full_board "Inl NotFound"]
  by (simp add: x_row_full_board_def)

subsection \<open>Saving and restoring\<close>

lemma chars_of_concat:
  "\<forall>c \<in> set g. length c = 1 \<Longrightarrow> map (\<lambda>c. [c]) (concat g) = g"
proof (induction g)
  case Nil
  then show ?case by simp
next
  case (Cons x xs)
  then have "length x = 1" by simp
  then obtain c where "x = [c]" by (cases x) auto
  with Cons show ?case by simp
qed

text \<open>
  C7. For every board of nine cells that each hold blank, \<open>"X"\<close> or \<open>"O"\<close>, and a store
  that can be written and read, \<open>saveGame()\<close> succeeds and a following \<open>restoreGame()\<close>,
  on whatever board the engine holds by then, installs and returns the board that was
  saved.
\<close>

theorem save_restore_roundtrip:
  assumes "valid_board (game s)" "writable d" "readable d"
  shows "\<exists>d'. saveGame s d = Inr d' \<and>
     restoreGame (load d') s' = (Inr (game s), s'\<lparr>game := game s\<rparr>)"
proof -
  have len: "length (game s) = 9" using assms(1) by (simp add: valid_board_def)
  have chars: "map (\<lambda>c. [c]) (concat (game s)) = game s"
    using valid_board_single_chars [OF assms(1)] by (rule chars_of_concat)
  have "saveGame s d = Inr (d\<lparr>contents := Some (concat (game s))\<rparr>)"
    using assms(2) by (simp add: saveGame_def store_def)
  moreover have "load (d\<lparr>contents := Some (concat (game s))\<rparr>) = Inr (game s)"
    using assms(3) chars by (simp add: load_def)
  moreover have "restoreGame (Inr (game s)) s' = (Inr (game s), s'\<lparr>game := game s\<rparr>)"
    using len by (simp add: restoreGame_def)
  ultimately show ?thesis by simp
qed

theorem save_restore_roundtrip_witness:
  "valid_board (game \<lparr>game = x_row_full_board\<rparr>) \<and> valid_board (game \<lparr>game = blank_board\<rparr>) \<and>
   writable empty_disk \<and> readable empty_disk \<and>
   (\<exists>d'. saveGame \<lparr>game = x_row_full_board\<rparr> empty_disk = Inr d' \<and>
      restoreGame (load d') \<lparr>game = blank_board\<rparr>
        = (Inr x_row_full_board, \<lparr>game = x_row_full_board\<rparr>)) \<and>
   (\<exists>d'. saveGame \<lparr>game = blank_board\<rparr> empty_disk = Inr d' \<and>
      restoreGame (load d') \<lparr>game = x_row_full_board\<rparr>
        = (Inr blank_board, \<lparr>game = blank_board\<rparr>))"
proof -
  have v1: "valid_board (game \<lparr>game = x_row_full_board\<rparr>)"
    by (simp add: valid_board_def x_row_full_board_def)
  have v2: "valid_board (game \<lparr>game = blank_board\<rparr>)"
    by (simp add: valid_board_def blank_board_def)
  have w: "writable empty_disk" and r: "readable empty_disk"
    by (simp_all add: empty_disk_def)
  show ?thesis
    using v1 v2 w r
      save_restore_roundtrip [OF v1 w r, of "\<lparr>game = blank_board\<rparr>"]
      save_restore_roundtrip [OF v2 w r, of "\<lparr>game = x_row_full_board\<rparr>"]
    by simp
qed

subsection \<open>The first move of a new game\<close>

lemma single_X_no_line:
  assumes "k < 9"
  shows "\<not> line_spelled (blank_board[k := ''X''])"
proof -
  from assms have "k = 0 \<or> k = 1 \<or> k = 2 \<or> k = 3 \<or> k = 4 \<or> k = 5 \<or> k = 6 \<or> k = 7 \<or> k = 8"
    by arith
  then show ?thesis
    by (elim disjE) (simp_all add: line_spelled_def wins_def blank_board_cells)
qed

text \<open>
  C8. For every index \<open>i\<close> from 0 to 8, \<open>newGame()\<close> followed by \<open>userMove(i)\<close> raises
  nothing, returns the empty string, and leaves a board whose cell \<open>i\<close> is \<open>"X"\<close> and
  whose other eight cells are blank.
\<close>

theorem newGame_userMove_sets_cell:
  assumes "0 \<le> i" "i \<le> 8"
  shows "userMove i (snd (newGame s)) = (Inr '''', s\<lparr>game := (replicate 9 '' '')[nat i := ''X'']\<rparr>) \<and>
     (\<forall>j < 9. game (snd (userMove i (snd (newGame s)))) ! j = (if j = nat i then ''X'' else '' ''))"
proof -
  let ?s = "snd (newGame s)"
  have g: "game ?s = blank_board" by (simp add: newGame_def)
  have k: "nat i < 9" using assms by simp
  have "userMove i ?s =
       (Inr (if line_spelled ((game ?s)[nat i := ''X'']) then ''X'' else ''''),
        ?s\<lparr>game := (game ?s)[nat i := ''X'']\<rparr>)"
    using assms k by (intro userMove_blank) (simp_all add: g blank_board_def)
  then have um: "userMove i ?s = (Inr '''', s\<lparr>game := (replicate 9 '' '')[nat i := ''X'']\<rparr>)"
    using single_X_no_line [OF k] by (simp add: g) (simp add: newGame_def blank_board_def)
  have "\<forall>j < 9. (replicate 9 '' '')[nat i := ''X''] ! j = (if j = nat i then ''X'' else '' '')"
    by (simp add: nth_list_update)
  with um show ?thesis by simp
qed

theorem newGame_userMove_sets_cell_witness:
  "(0::int) \<le> 4 \<and> (4::int) \<le> 8 \<and>
   userMove 4 (snd (newGame \<lparr>game = x_row_full_board\<rparr>))
     = (Inr '''', \<lparr>game = ['' '', '' '', '' '', '' '', ''X'', '' '', '' '', '' '', '' '']\<rparr>)"
  using newGame_userMove_sets_cell [of 4 "\<lparr>game = x_row_full_board\<rparr>"]
  by (simp add: eval_nat_numeral)

subsection \<open>Only the length of a snapshot is looked at\<close>

text \<open>
  C9. The constructor adopts any list of nine cells as it is, whatever the cells hold, and
  gives nine blanks for \<open>None\<close>, for the empty list and for a list of any other length;
  \<open>restoreGame()\<close> installs any loaded list of nine cells as it is.
\<close>

theorem snapshot_length_only:
  "(length g = 9 \<longrightarrow> init (Some g) = \<lparr>game = g\<rparr>) \<and>
   (length g \<noteq> 9 \<longrightarrow> init (Some g) = \<lparr>game = replicate 9 '' ''\<rparr>) \<and>
   init None = \<lparr>game = replicate 9 '' ''\<rparr> \<and>
   init (Some []) = \<lparr>game = replicate 9 '' ''\<rparr> \<and>
   (length g = 9 \<longrightarrow> restoreGame (Inr g) s = (Inr g, s\<lparr>game := g\<rparr>))"
  by (auto simp: init_def restoreGame_def blank_board_def)

theorem snapshot_length_only_witness:
  "length odd_cells = 9 \<and> length [''X'', ''O''] \<noteq> (9::nat) \<and>
   init (Some odd_cells) = \<lparr>game = odd_cells\<rparr> \<and>
   init (Some [''X'', ''O'']) = \<lparr>game = replicate 9 '' ''\<rparr> \<and>
   restoreGame (Inr odd_cells) \<lparr>game = blank_board\<rparr> = (Inr odd_cells, \<lparr>game = odd_cells\<rparr>)"
  using snapshot_length_only [of odd_cells "\<lparr>game = blank_board\<rparr>"] snapshot_length_only [of "[''X'', ''O'']" "\<lparr>game = blank_board\<rparr>"]
  by (simp add: odd_cells_def)

end
